theory Spec2Isabelle
  imports Main "HOL-Library.Word"
begin

unbundle bit_operations_syntax

section \<open>Offsets\<close>

text \<open>
  An \<open>Offset\<close> is Go's \<open>int64\<close>: a 64-bit word read as two's complement by \<open>sint\<close>.
  The comparison methods of the source go through \<open>time.Unix(0, int64(o))\<close>, so the
  relevant part of Go's \<open>time\<close> package is written out: \<open>Unix\<close> normalises a nanosecond
  count into seconds and a nanosecond remainder in \<open>[0, 1e9)\<close>, with Go's division that
  truncates towards zero, and \<open>Before\<close>/\<open>Equal\<close> compare the two fields.
\<close>

type_synonym Offset = "64 word"

definition ZeroOffset :: Offset where
  "ZeroOffset = 0"

definition quot :: "int \<Rightarrow> int \<Rightarrow> int" where
  "quot a b = sgn a * sgn b * (\<bar>a\<bar> div \<bar>b\<bar>)"

record Time =
  tsec :: int
  tnsec :: int

definition Unix :: "int \<Rightarrow> int \<Rightarrow> Time" where
  "Unix sec nsec =
     (if nsec < 0 \<or> nsec \<ge> 1000000000 then
        (let n = quot nsec 1000000000;
             sec1 = sec + n;
             nsec1 = nsec - n * 1000000000
         in if nsec1 < 0 then \<lparr>tsec = sec1 - 1, tnsec = nsec1 + 1000000000\<rparr>
            else \<lparr>tsec = sec1, tnsec = nsec1\<rparr>)
      else \<lparr>tsec = sec, tnsec = nsec\<rparr>)"

definition Time_Before :: "Time \<Rightarrow> Time \<Rightarrow> bool" where
  "Time_Before t u = (tsec t < tsec u \<or> (tsec t = tsec u \<and> tnsec t < tnsec u))"

definition Time_Equal :: "Time \<Rightarrow> Time \<Rightarrow> bool" where
  "Time_Equal t u = (tsec t = tsec u \<and> tnsec t = tnsec u)"

text \<open>\<open>Offset.Before\<close>, \<open>Offset.After\<close>, \<open>Offset.Equal\<close> and \<open>Offset.Within\<close>, as written
  in the source. The body of \<open>After\<close> calls \<open>Before\<close> on the times, exactly as
  \<open>Offset.Before\<close> does.\<close>

definition Offset_Before :: "Offset \<Rightarrow> Offset \<Rightarrow> bool" where
  "Offset_Before o' b = Time_Before (Unix 0 (sint o')) (Unix 0 (sint b))"

definition Offset_After :: "Offset \<Rightarrow> Offset \<Rightarrow> bool" where
  "Offset_After o' b = Time_Before (Unix 0 (sint o')) (Unix 0 (sint b))"

definition Offset_Equal :: "Offset \<Rightarrow> Offset \<Rightarrow> bool" where
  "Offset_Equal o' b = Time_Equal (Unix 0 (sint o')) (Unix 0 (sint b))"

definition Offset_Within :: "Offset \<Rightarrow> Offset \<Rightarrow> Offset \<Rightarrow> bool" where
  "Offset_Within o' a b = (let n = sint o' in sint a \<le> n \<and> n \<le> sint b)"

section \<open>Errors and panics\<close>

text \<open>
  Go errors are values; \<open>Wrap e msg\<close> is \<open>errors.Wrap(e, msg)\<close> of pkg/errors and
  \<open>Cause\<close> unwraps it. A run-time panic (index out of range, nil dereference) is a
  value of its own type, returned on the left of a sum.
\<close>

datatype error =
    ErrNotEnoughSpace
  | ErrSegmentFull
  | ErrTooBig
  | ErrLoggerClosed
  | EOF
  | ErrSyntax
  | ErrRange
  | CorruptInputError
  | ErrorString string
  | Wrap error string

fun Cause :: "error \<Rightarrow> error" where
  "Cause (Wrap e msg) = Cause e"
| "Cause e = e"

datatype panic = IndexOutOfRange | NilDereference

section \<open>Chunks\<close>

text \<open>
  A chunk is a byte slice: eight bytes holding the offset in little-endian order
  (\<open>binary.LittleEndian.PutUint64\<close>), then the payload. Every chunk the package builds
  (\<open>newChunkOffset\<close>, \<open>UnmarshalText\<close>) has at least \<open>chunkOffsetSize\<close> bytes; on such
  chunks \<open>c[:chunkOffsetSize]\<close> never fails.
\<close>

type_synonym byte = "8 word"
type_synonym chunk = "byte list"

definition chunkOffsetSize :: nat where
  "chunkOffsetSize = 8"

definition chunkSeparator :: char where
  "chunkSeparator = CHR '':''"

definition PutUint64 :: "64 word \<Rightarrow> byte list" where
  "PutUint64 v = [ucast v, ucast (drop_bit 8 v), ucast (drop_bit 16 v), ucast (drop_bit 24 v),
     ucast (drop_bit 32 v), ucast (drop_bit 40 v), ucast (drop_bit 48 v), ucast (drop_bit 56 v)]"

definition Uint64 :: "byte list \<Rightarrow> 64 word" where
  "Uint64 b = ucast (b ! 0) OR push_bit 8 (ucast (b ! 1)) OR push_bit 16 (ucast (b ! 2))
     OR push_bit 24 (ucast (b ! 3)) OR push_bit 32 (ucast (b ! 4)) OR push_bit 40 (ucast (b ! 5))
     OR push_bit 48 (ucast (b ! 6)) OR push_bit 56 (ucast (b ! 7))"

definition newChunkOffset :: "byte list \<Rightarrow> Offset \<Rightarrow> chunk" where
  "newChunkOffset data off = PutUint64 off @ data"

definition chunk_Offset :: "chunk \<Rightarrow> Offset" where
  "chunk_Offset c = Uint64 (take chunkOffsetSize c)"

definition chunk_Data :: "chunk \<Rightarrow> byte list" where
  "chunk_Data c = drop chunkOffsetSize c"

section \<open>Text encoding of a chunk\<close>

text \<open>
  \<open>MarshalText\<close> writes \<open>strconv.FormatInt(offset, 10)\<close>, the separator, and the payload
  in \<open>base64.RawStdEncoding\<close> (standard alphabet, no padding). The library functions it
  calls are written out here as Go defines them.
\<close>

fun index_of :: "'a \<Rightarrow> 'a list \<Rightarrow> nat option" where
  "index_of x [] = None"
| "index_of x (y # ys) = (if x = y then Some 0 else map_option Suc (index_of x ys))"

definition digits :: string where
  "digits = ''0123456789''"

fun formatBits :: "nat \<Rightarrow> string" where
  "formatBits n = (if n < 10 then [digits ! n] else formatBits (n div 10) @ [digits ! (n mod 10)])"

declare formatBits.simps [simp del]

definition FormatInt :: "int \<Rightarrow> string" where
  "FormatInt i = (if i < 0 then CHR ''-'' # formatBits (nat (- i)) else formatBits (nat i))"

text \<open>\<open>strconv.ParseUint(s, 10, 64)\<close>: every character must be a decimal digit; the
  value must stay below \<open>2^64\<close>. The first failure met from the left is returned.\<close>

fun ParseUint_loop :: "nat \<Rightarrow> string \<Rightarrow> error + nat" where
  "ParseUint_loop n [] = Inr n"
| "ParseUint_loop n (c # cs) =
     (case index_of c digits of
        None \<Rightarrow> Inl ErrSyntax
      | Some d \<Rightarrow> if n * 10 + d \<ge> 2 ^ 64 then Inl ErrRange else ParseUint_loop (n * 10 + d) cs)"

definition ParseUint :: "string \<Rightarrow> error + nat" where
  "ParseUint s = (if s = [] then Inl ErrSyntax else ParseUint_loop 0 s)"

text \<open>\<open>strconv.ParseInt(s, 10, 64)\<close>: an optional sign, then \<open>ParseUint\<close>; the result
  must fit \<open>int64\<close>. A range failure of \<open>ParseUint\<close> stays a range failure.\<close>

definition ParseInt :: "string \<Rightarrow> error + int" where
  "ParseInt s =
     (if s = [] then Inl ErrSyntax
      else
        (let neg = (hd s = CHR ''-'');
             s1 = (if hd s = CHR ''+'' \<or> hd s = CHR ''-'' then tl s else s)
         in case ParseUint s1 of
              Inl e \<Rightarrow> Inl e
            | Inr un \<Rightarrow>
                if \<not> neg \<and> un \<ge> 2 ^ 63 then Inl ErrRange
                else if neg \<and> un > 2 ^ 63 then Inl ErrRange
                else Inr (if neg then - int un else int un)))"

definition encodeStd :: string where
  "encodeStd = ''ABCDEFGHIJKLMNOPQRSTUVWXYZabcdefghijklmnopqrstuvwxyz0123456789+/''"

text \<open>\<open>RawStdEncoding.EncodedLen\<close> and \<open>DecodedLen\<close> (no padding).\<close>

definition EncodedLen :: "nat \<Rightarrow> nat" where
  "EncodedLen n = (n * 8 + 5) div 6"

definition DecodedLen :: "nat \<Rightarrow> nat" where
  "DecodedLen n = n * 6 div 8"

text \<open>\<open>Encode\<close>: each full group of three bytes gives four characters; a rest of one
  byte gives two characters, a rest of two bytes three; no padding is written.\<close>

fun b64_Encode :: "byte list \<Rightarrow> string" where
  "b64_Encode [] = []"
| "b64_Encode [a] =
     (let val = unat a * 65536
      in [encodeStd ! (val div 262144 mod 64), encodeStd ! (val div 4096 mod 64)])"
| "b64_Encode [a, b] =
     (let val = unat a * 65536 + unat b * 256
      in [encodeStd ! (val div 262144 mod 64), encodeStd ! (val div 4096 mod 64),
          encodeStd ! (val div 64 mod 64)])"
| "b64_Encode (a # b # c # rest) =
     (let val = unat a * 65536 + unat b * 256 + unat c
      in [encodeStd ! (val div 262144 mod 64), encodeStd ! (val div 4096 mod 64),
          encodeStd ! (val div 64 mod 64), encodeStd ! (val mod 64)]) @ b64_Encode rest"

text \<open>\<open>Decode\<close> skips carriage returns and line feeds, rejects every other character
  outside the alphabet, and rejects a single trailing character. The non-strict
  encoding does not look at the unused low bits of a trailing group.\<close>

fun decodeQuanta :: "nat list \<Rightarrow> error + byte list" where
  "decodeQuanta [] = Inr []"
| "decodeQuanta [a] = Inl CorruptInputError"
| "decodeQuanta [a, b] =
     (let val = a * 262144 + b * 4096 in Inr [of_nat (val div 65536)])"
| "decodeQuanta [a, b, c] =
     (let val = a * 262144 + b * 4096 + c * 64
      in Inr [of_nat (val div 65536), of_nat (val div 256)])"
| "decodeQuanta (a # b # c # d # rest) =
     (let val = a * 262144 + b * 4096 + c * 64 + d
      in case decodeQuanta rest of
           Inl e \<Rightarrow> Inl e
         | Inr bs \<Rightarrow> Inr (of_nat (val div 65536) # of_nat (val div 256) # of_nat val # bs))"

fun decodeMap :: "string \<Rightarrow> error + nat list" where
  "decodeMap [] = Inr []"
| "decodeMap (c # cs) =
     (if c = CHR 0x0A \<or> c = CHR 0x0D then decodeMap cs
      else case index_of c encodeStd of
             None \<Rightarrow> Inl CorruptInputError
           | Some v \<Rightarrow> (case decodeMap cs of Inl e \<Rightarrow> Inl e | Inr vs \<Rightarrow> Inr (v # vs)))"

definition b64_Decode :: "string \<Rightarrow> error + byte list" where
  "b64_Decode src = (case decodeMap src of Inl e \<Rightarrow> Inl e | Inr vs \<Rightarrow> decodeQuanta vs)"

text \<open>\<open>bytes.Index(p, []byte{sep})\<close>: the index of the first separator, or \<open>-1\<close>.\<close>

definition bytes_Index :: "string \<Rightarrow> char \<Rightarrow> int" where
  "bytes_Index p sep = (case index_of sep p of None \<Rightarrow> - 1 | Some i \<Rightarrow> int i)"

definition chunk_MarshalText :: "chunk \<Rightarrow> string" where
  "chunk_MarshalText c =
     (let offset = FormatInt (sint (chunk_Offset c)) @ [chunkSeparator];
          data = b64_Encode (drop chunkOffsetSize c)
      in offset @ data)"

text \<open>\<open>UnmarshalText\<close> allocates \<open>chunkOffsetSize + DecodedLen(len(p[sep+1:]))\<close> zero bytes,
  stores the parsed offset in the first eight and decodes the rest of the line into
  the others; bytes the decoder does not write stay zero.\<close>

definition chunk_UnmarshalText :: "string \<Rightarrow> error + chunk" where
  "chunk_UnmarshalText p =
     (let sep = bytes_Index p chunkSeparator in
      if sep = - 1 then Inl (ErrorString ''no chunk separator'')
      else
        (let body = drop (nat sep + 1) p;
             size = DecodedLen (length body)
         in case ParseInt (take (nat sep) p) of
              Inl e \<Rightarrow> Inl (Wrap e ''parse offset'')
            | Inr off \<Rightarrow>
                (case b64_Decode body of
                   Inl e \<Rightarrow> Inl (Wrap e ''unmarshal text'')
                 | Inr bs \<Rightarrow> Inr (PutUint64 (word_of_int off) @ bs @ replicate (size - length bs) 0))))"

section \<open>Segments\<close>

text \<open>
  A segment is its capacity, its chunks in write order and the read cursor. The clock
  (\<open>NewOffset\<close>, that is \<open>time.Now().UnixNano()\<close>) is an input: \<open>Write\<close> takes the offset
  the clock returns when the chunk is stamped.
\<close>

record Segment =
  seg_size :: "64 word"
  chunks :: "chunk list"
  chunkIdx :: int

definition NewSegmentSize :: "64 word \<Rightarrow> Segment" where
  "NewSegmentSize sz = \<lparr>seg_size = sz, chunks = [], chunkIdx = - 1\<rparr>"

definition DefaultSegmentSize :: "64 word" where
  "DefaultSegmentSize = 16777216"

definition NewSegment :: Segment where
  "NewSegment = NewSegmentSize DefaultSegmentSize"

text \<open>\<open>new(Segment)\<close>: Go's zero value, with the cursor at \<open>0\<close>.\<close>

definition new_Segment :: Segment where
  "new_Segment = \<lparr>seg_size = 0, chunks = [], chunkIdx = 0\<rparr>"

text \<open>\<open>remaining\<close> adds the chunk lengths as \<open>uint64\<close> and returns
  \<open>int64(s.size - n)\<close>; the caller reads it as a signed number.\<close>

definition remaining :: "Segment \<Rightarrow> 64 word" where
  "remaining s = seg_size s - foldl (\<lambda>n c. n + of_nat (length c)) 0 (chunks s)"

definition Segment_write :: "Offset \<Rightarrow> Segment \<Rightarrow> byte list \<Rightarrow> Segment \<times> nat \<times> error option" where
  "Segment_write now s p = (s\<lparr>chunks := chunks s @ [newChunkOffset p now]\<rparr>, length p, None)"

definition Segment_Write :: "Offset \<Rightarrow> Segment \<Rightarrow> byte list \<Rightarrow> Segment \<times> nat \<times> error option" where
  "Segment_Write now s p =
     (if length p = 0 then (s, 0, None)
      else if int (length p) > sint (remaining s) then (s, 0, Some ErrNotEnoughSpace)
      else Segment_write now s p)"

definition Segment_Chunk :: "Segment \<Rightarrow> panic + chunk" where
  "Segment_Chunk s =
     (if 0 \<le> chunkIdx s \<and> chunkIdx s < int (length (chunks s))
      then Inr (chunks s ! nat (chunkIdx s)) else Inl IndexOutOfRange)"

definition Segment_Next :: "Segment \<Rightarrow> Segment \<times> bool" where
  "Segment_Next s =
     (if chunkIdx s + 1 = int (length (chunks s)) then (s, False)
      else (s\<lparr>chunkIdx := chunkIdx s + 1\<rparr>, True))"

definition Segment_CurrentReadOffset :: "Segment \<Rightarrow> panic + Offset" where
  "Segment_CurrentReadOffset s =
     (if 0 \<le> chunkIdx s \<and> chunkIdx s < int (length (chunks s))
      then Inr (chunk_Offset (chunks s ! nat (chunkIdx s))) else Inl IndexOutOfRange)"

definition Segment_Chunks :: "Segment \<Rightarrow> int" where
  "Segment_Chunks s = int (length (chunks s))"

definition Segment_Size :: "Segment \<Rightarrow> int" where
  "Segment_Size s = foldl (\<lambda>n c. n + int (length c)) 0 (chunks s)"

definition Segment_EncodedSize :: "Segment \<Rightarrow> int" where
  "Segment_EncodedSize s = foldl (\<lambda>n c. n + int (length (chunk_MarshalText c)) + 1) 0 (chunks s)"

definition Segment_Limits :: "Segment \<Rightarrow> Offset \<times> Offset" where
  "Segment_Limits s =
     (case chunks s of
        [] \<Rightarrow> (ZeroOffset, ZeroOffset)
      | [c] \<Rightarrow> (chunk_Offset c, chunk_Offset c)
      | c # _ \<Rightarrow> (chunk_Offset c, chunk_Offset (last (chunks s))))"

text \<open>\<open>Truncate\<close>: the loop looks for the first index \<open>i\<close> whose chunk satisfies
  \<open>c.Offset().After(offset)\<close>, keeps \<open>chunks[i:]\<close>, moves the cursor and stops. When no
  chunk satisfies the test the segment is left as it is.\<close>

fun Truncate_find :: "Offset \<Rightarrow> chunk list \<Rightarrow> nat \<Rightarrow> nat option" where
  "Truncate_find offset [] i = None"
| "Truncate_find offset (c # cs) i =
     (if Offset_After (chunk_Offset c) offset then Some i else Truncate_find offset cs (Suc i))"

definition Segment_Truncate :: "Offset \<Rightarrow> Segment \<Rightarrow> Segment" where
  "Segment_Truncate offset s =
     (case Truncate_find offset (chunks s) 0 of
        None \<Rightarrow> s
      | Some i \<Rightarrow>
          s\<lparr>chunks := drop i (chunks s),
            chunkIdx := (if chunkIdx s > 0 then chunkIdx s - (int i + 1) else chunkIdx s)\<rparr>)"

text \<open>\<open>WriteTo\<close> into an in-memory writer that accepts every write: the bytes written
  and their count. \<open>ReadFrom\<close> splits its input at line feeds (\<open>bytes.Split\<close>), skips
  empty rows and decodes the others; it stops at the first row that does not decode,
  keeping the chunks read so far.\<close>

definition Segment_WriteTo :: "Segment \<Rightarrow> string \<times> int" where
  "Segment_WriteTo s =
     (if length (chunks s) = 0 then ([], 0)
      else foldl (\<lambda>(w, n) c. let p = chunk_MarshalText c; b = p @ [CHR 0x0A]
                             in (w @ b, n + int (length b))) ([], 0) (chunks s))"

fun bytes_Split :: "string \<Rightarrow> char \<Rightarrow> string list" where
  "bytes_Split [] sep = [[]]"
| "bytes_Split (c # cs) sep =
     (if c = sep then [] # bytes_Split cs sep
      else (case bytes_Split cs sep of
              r # rs \<Rightarrow> (c # r) # rs
            | [] \<Rightarrow> [[c]]))"

fun ReadFrom_rows :: "nat \<Rightarrow> string list \<Rightarrow> chunk list \<Rightarrow> chunk list \<times> error option" where
  "ReadFrom_rows i [] cs = (cs, None)"
| "ReadFrom_rows i (row # rows) cs =
     (if length row = 0 then ReadFrom_rows (Suc i) rows cs
      else case chunk_UnmarshalText row of
             Inl e \<Rightarrow> (cs, Some (Wrap e (''unmarshal chunk '' @ FormatInt (int i))))
           | Inr c \<Rightarrow> ReadFrom_rows (Suc i) rows (cs @ [c]))"

definition Segment_ReadFrom :: "Segment \<Rightarrow> string \<Rightarrow> Segment \<times> int \<times> error option" where
  "Segment_ReadFrom s p =
     (if length (chunks s) \<noteq> 0
      then (s, 0, Some (ErrorString ''read from: will not load into populated segment''))
      else case ReadFrom_rows 0 (bytes_Split p (CHR 0x0A)) [] of
             (cs, Some e) \<Rightarrow> (s\<lparr>chunks := cs\<rparr>, 0, Some e)
           | (cs, None) \<Rightarrow> (s\<lparr>chunks := cs\<rparr>, int (length p), None))"

section \<open>Sinks\<close>

text \<open>
  Segments are shared by pointer: a \<open>MemorySink\<close> keeps the very \<open>*Segment\<close> it was
  handed, and \<open>LoadSegment\<close> hands that pointer to the reader, whose \<open>Next\<close> then moves
  the cursor of the stored segment. The model keeps the segments in a store (a list
  indexed by address; allocation appends) and passes addresses around.
\<close>

type_synonym addr = nat

record MemorySink =
  segments :: "addr list"

definition NewMemorySink :: MemorySink where
  "NewMemorySink = \<lparr>segments = []\<rparr>"

definition MemorySink_LoadSegment ::
    "Segment list \<Rightarrow> MemorySink \<Rightarrow> Offset \<Rightarrow> panic + (addr option \<times> error option)" where
  "MemorySink_LoadSegment h s offset =
     (if Offset_Equal offset ZeroOffset then
        (case segments s of
           [] \<Rightarrow> Inl IndexOutOfRange
         | a # _ \<Rightarrow> Inr (Some a, None))
      else
        (case find (\<lambda>a. case Segment_Limits (h ! a) of
                           (x, y) \<Rightarrow> Offset_Within offset x y \<or> Offset_Before offset x)
                (segments s) of
           Some a \<Rightarrow> Inr (Some a, None)
         | None \<Rightarrow> Inr (None, Some EOF)))"

definition MemorySink_WriteSegment ::
    "Segment list \<Rightarrow> MemorySink \<Rightarrow> addr \<Rightarrow> MemorySink \<times> error option" where
  "MemorySink_WriteSegment h s seg =
     (case Segment_Limits (h ! seg) of
        (first, last') \<Rightarrow>
          if Offset_Equal first ZeroOffset \<and> Offset_Equal last' ZeroOffset then (s, None)
          else (s\<lparr>segments := segments s @ [seg]\<rparr>, None))"

definition MemorySink_Offsets :: "Segment list \<Rightarrow> MemorySink \<Rightarrow> panic + (Offset \<times> Offset)" where
  "MemorySink_Offsets h s =
     (case segments s of
        [] \<Rightarrow> Inl IndexOutOfRange
      | a # _ \<Rightarrow> Inr (fst (Segment_Limits (h ! a)), snd (Segment_Limits (h ! last (segments s)))))"

definition MemorySink_NumSegments :: "MemorySink \<Rightarrow> int" where
  "MemorySink_NumSegments s = int (length (segments s))"

text \<open>\<open>Truncate\<close>: count the leading segments whose newest offset is before \<open>offset\<close>,
  drop them, then index the first remaining segment (a panic when none remains) and
  truncate it in place when \<open>offset\<close> is within its limits.\<close>

definition MemorySink_Truncate ::
    "Segment list \<Rightarrow> MemorySink \<Rightarrow> Offset \<Rightarrow> panic + (Segment list \<times> MemorySink \<times> error option)" where
  "MemorySink_Truncate h s offset =
     (let removed = length (takeWhile (\<lambda>a. Offset_Before (snd (Segment_Limits (h ! a))) offset)
                              (segments s));
          s1 = (if removed > 0 then s\<lparr>segments := drop removed (segments s)\<rparr> else s)
      in case segments s1 of
           [] \<Rightarrow> Inl IndexOutOfRange
         | a # _ \<Rightarrow>
             (case Segment_Limits (h ! a) of
                (x, y) \<Rightarrow>
                  if Offset_Within offset x y
                  then Inr (h[a := Segment_Truncate offset (h ! a)], s1, None)
                  else Inr (h, s1, None)))"

text \<open>
  A \<open>DirectorySink\<close> keeps an index of offset ranges and file names; the directory is a
  map from file name to file contents. Only the segment files are kept in the map: the
  \<open>.CHECKSUM\<close> siblings are read by \<open>Analyze\<close> alone. \<open>loadSegment\<close> reads the file into
  \<open>new(Segment)\<close>, a fresh segment of its own.
\<close>

record DirectorySink =
  files :: "string \<rightharpoonup> string"
  segments_ds :: "(Offset \<times> Offset) list"
  segPaths :: "string list"

definition NewDirectorySink :: "(string \<rightharpoonup> string) \<Rightarrow> DirectorySink" where
  "NewDirectorySink fs = \<lparr>files = fs, segments_ds = [], segPaths = []\<rparr>"

definition Offset_String :: "Offset \<Rightarrow> string" where
  "Offset_String off = FormatInt (sint off)"

definition fmtSegFileName :: "Segment \<Rightarrow> string" where
  "fmtSegFileName seg =
     (case Segment_Limits seg of (start, end') \<Rightarrow> Offset_String start @ ''-'' @ Offset_String end')"

definition DirectorySink_loadSegment :: "DirectorySink \<Rightarrow> string \<Rightarrow> Segment option \<times> error option" where
  "DirectorySink_loadSegment ds name =
     (case files ds name of
        None \<Rightarrow> (None, Some (Wrap (ErrorString ''no such file or directory'') ''open segment file''))
      | Some f \<Rightarrow>
          (case Segment_ReadFrom new_Segment f of
             (seg, n, Some e) \<Rightarrow> (None, Some (Wrap e ''load segment''))
           | (seg, n, None) \<Rightarrow> (Some seg, None)))"

fun find_Within :: "Offset \<Rightarrow> (Offset \<times> Offset) list \<Rightarrow> nat \<Rightarrow> nat option" where
  "find_Within offset [] i = None"
| "find_Within offset (offs # rest) i =
     (if Offset_Within offset (fst offs) (snd offs) then Some i else find_Within offset rest (Suc i))"

definition DirectorySink_LoadSegment ::
    "DirectorySink \<Rightarrow> Offset \<Rightarrow> panic + (Segment option \<times> error option)" where
  "DirectorySink_LoadSegment ds offset =
     (if Offset_Equal offset ZeroOffset then
        (if length (segPaths ds) = 0 then Inr (None, Some (ErrorString ''no segments to load''))
         else Inr (DirectorySink_loadSegment ds (segPaths ds ! 0)))
      else
        (case find_Within offset (segments_ds ds) 0 of
           Some i \<Rightarrow>
             if i < length (segPaths ds) then Inr (DirectorySink_loadSegment ds (segPaths ds ! i))
             else Inl IndexOutOfRange
         | None \<Rightarrow> Inr (None, Some EOF)))"

definition DirectorySink_writeSegment :: "DirectorySink \<Rightarrow> Segment \<Rightarrow> DirectorySink \<times> error option" where
  "DirectorySink_writeSegment ds seg =
     (ds\<lparr>files := (files ds)(fmtSegFileName seg \<mapsto> fst (Segment_WriteTo seg))\<rparr>, None)"

definition DirectorySink_WriteSegment :: "DirectorySink \<Rightarrow> Segment \<Rightarrow> DirectorySink \<times> error option" where
  "DirectorySink_WriteSegment ds seg =
     (case Segment_Limits seg of
        (start, end') \<Rightarrow>
          if start = ZeroOffset \<and> end' = ZeroOffset then (ds, None)
          else (case DirectorySink_writeSegment ds seg of
                  (ds1, Some e) \<Rightarrow> (ds1, Some e)
                | (ds1, None) \<Rightarrow>
                    (ds1\<lparr>segments_ds := segments_ds ds1 @ [(start, end')],
                         segPaths := segPaths ds1 @ [fmtSegFileName seg]\<rparr>, None)))"

definition DirectorySink_NumSegments :: "DirectorySink \<Rightarrow> int" where
  "DirectorySink_NumSegments ds = int (length (segments_ds ds))"

text \<open>The \<open>Sink\<close> interface: a logger or reader holds one of the two implementations and
  calls it through the interface. The world is the segment store and the sink.\<close>

datatype Sink = Mem MemorySink | Dir DirectorySink

record world =
  heap :: "Segment list"
  sink :: Sink

definition Sink_LoadSegment :: "world \<Rightarrow> Offset \<Rightarrow> panic + (world \<times> addr option \<times> error option)" where
  "Sink_LoadSegment w offset =
     (case sink w of
        Mem s \<Rightarrow>
          (case MemorySink_LoadSegment (heap w) s offset of
             Inl p \<Rightarrow> Inl p
           | Inr (seg, e) \<Rightarrow> Inr (w, seg, e))
      | Dir ds \<Rightarrow>
          (case DirectorySink_LoadSegment ds offset of
             Inl p \<Rightarrow> Inl p
           | Inr (None, e) \<Rightarrow> Inr (w, None, e)
           | Inr (Some seg, e) \<Rightarrow> Inr (w\<lparr>heap := heap w @ [seg]\<rparr>, Some (length (heap w)), e)))"

definition Sink_WriteSegment :: "world \<Rightarrow> addr \<Rightarrow> world \<times> error option" where
  "Sink_WriteSegment w seg =
     (case sink w of
        Mem s \<Rightarrow>
          (case MemorySink_WriteSegment (heap w) s seg of (s1, e) \<Rightarrow> (w\<lparr>sink := Mem s1\<rparr>, e))
      | Dir ds \<Rightarrow>
          (case DirectorySink_WriteSegment ds (heap w ! seg) of (ds1, e) \<Rightarrow> (w\<lparr>sink := Dir ds1\<rparr>, e)))"

definition Sink_NumSegments :: "world \<Rightarrow> int" where
  "Sink_NumSegments w =
     (case sink w of Mem s \<Rightarrow> MemorySink_NumSegments s | Dir ds \<Rightarrow> DirectorySink_NumSegments ds)"

text \<open>\<open>Close\<close> returns \<open>nil\<close> in both implementations.\<close>

definition Sink_Close :: "world \<Rightarrow> world \<times> error option" where
  "Sink_Close w = (w, None)"

section \<open>Logger\<close>

record Logger =
  segSize :: "64 word"
  seg :: addr
  closed :: bool

text \<open>\<open>New\<close> with the \<open>SegmentSize\<close> option applied (or \<open>DefaultSegmentSize\<close> without it);
  a nil sink is refused.\<close>

definition New :: "Segment list \<Rightarrow> Sink option \<Rightarrow> 64 word \<Rightarrow> error + (world \<times> Logger)" where
  "New h sk sz =
     (case sk of
        None \<Rightarrow> Inl (ErrorString ''nil sink'')
      | Some k \<Rightarrow>
          Inr (\<lparr>heap = h @ [NewSegmentSize sz], sink = k\<rparr>,
               \<lparr>segSize = sz, seg = length h, closed = False\<rparr>))"

definition Logger_flush :: "world \<Rightarrow> Logger \<Rightarrow> world \<times> Logger \<times> error option" where
  "Logger_flush w l =
     (case Sink_WriteSegment w (seg l) of
        (w1, Some e) \<Rightarrow> (w1, l, Some (Wrap e ''write segment''))
      | (w1, None) \<Rightarrow>
          (w1\<lparr>heap := heap w1 @ [NewSegmentSize (segSize l)]\<rparr>, l\<lparr>seg := length (heap w1)\<rparr>, None))"

text \<open>The body of \<open>Write\<close> under the lock, from the label \<open>WriteData\<close>: write to the
  active segment; on \<open>ErrNotEnoughSpace\<close> flush and jump back. Nothing bounds the number
  of jumps, so the function is partial: \<open>None\<close> is a loop that never leaves.\<close>

partial_function (option) Logger_WriteData ::
    "Offset \<Rightarrow> byte list \<Rightarrow> world \<Rightarrow> Logger \<Rightarrow> (world \<times> Logger \<times> error option) option" where
  "Logger_WriteData now p w l =
     (case Segment_Write now (heap w ! seg l) p of
        (s1, n, e) \<Rightarrow>
          (let w1 = w\<lparr>heap := (heap w)[seg l := s1]\<rparr> in
           if e = Some ErrNotEnoughSpace then
             (case Logger_flush w1 l of
                (w2, l2, Some e2) \<Rightarrow> Some (w2, l2, Some e2)
              | (w2, l2, None) \<Rightarrow> Logger_WriteData now p w2 l2)
           else Some (w1, l, None)))"

definition Logger_Write ::
    "Offset \<Rightarrow> world \<Rightarrow> Logger \<Rightarrow> byte list \<Rightarrow> (world \<times> Logger \<times> int \<times> error option) option" where
  "Logger_Write now w l p =
     (if int (length p) > uint (segSize l) then Some (w, l, 0, Some ErrTooBig)
      else if closed l then Some (w, l, 0, Some (Wrap ErrLoggerClosed ''write''))
      else (case Logger_WriteData now p w l of
              None \<Rightarrow> None
            | Some (w1, l1, Some e) \<Rightarrow> Some (w1, l1, 0, Some (Wrap e ''write''))
            | Some (w1, l1, None) \<Rightarrow> Some (w1, l1, int (length p), None)))"

definition Logger_Close :: "world \<Rightarrow> Logger \<Rightarrow> world \<times> Logger \<times> error option" where
  "Logger_Close w l =
     (if closed l then (w, l, None)
      else (case Logger_flush w l of
              (w1, l1, Some e) \<Rightarrow> (w1, l1, Some (Wrap e ''flush''))
            | (w1, l1, None) \<Rightarrow>
                (case Sink_Close w1 of
                   (w2, Some e) \<Rightarrow> (w2, l1, Some (Wrap e ''close sink''))
                 | (w2, None) \<Rightarrow> (w2, l1\<lparr>closed := True\<rparr>, None))))"

definition Logger_Flush :: "world \<Rightarrow> Logger \<Rightarrow> world \<times> Logger \<times> error option" where
  "Logger_Flush w l =
     (if closed l then (w, l, Some ErrLoggerClosed)
      else (case Logger_flush w l of
              (w1, l1, Some e) \<Rightarrow> (w1, l1, Some (Wrap e ''flush''))
            | (w1, l1, None) \<Rightarrow> (w1, l1, None)))"

section \<open>Reader\<close>

record Reader =
  off :: Offset
  seg_r :: "addr option"
  err :: "error option"

definition NewReaderOffset :: "Offset \<Rightarrow> Reader" where
  "NewReaderOffset offset = \<lparr>off = offset, seg_r = None, err = None\<rparr>"

definition NewReader :: Reader where
  "NewReader = NewReaderOffset ZeroOffset"

definition Reader_loadSegment :: "world \<Rightarrow> Offset \<Rightarrow> panic + (world \<times> addr option \<times> error option)" where
  "Reader_loadSegment w offset =
     (case Sink_LoadSegment w offset of
        Inl p \<Rightarrow> Inl p
      | Inr (w1, sg, e) \<Rightarrow>
          if e = Some EOF then Inr (w1, None, None)
          else if e \<noteq> None then Inr (w1, None, e)
          else Inr (w1, sg, None))"

text \<open>\<open>Next\<close> from the label \<open>NextDataChunk\<close>: advance in the current segment, or load
  the segment at \<open>r.off + 1\<close> and jump back. A nil segment is dereferenced by
  \<open>r.seg.Next()\<close>. The jump is not bounded, so the function is partial.\<close>

partial_function (option) Reader_NextDataChunk ::
    "world \<Rightarrow> Reader \<Rightarrow> (panic + (world \<times> Reader \<times> bool)) option" where
  "Reader_NextDataChunk w r =
     (case seg_r r of
        None \<Rightarrow> Some (Inl NilDereference)
      | Some a \<Rightarrow>
          (case Segment_Next (heap w ! a) of
             (s1, ok) \<Rightarrow>
               (let w1 = w\<lparr>heap := (heap w)[a := s1]\<rparr> in
                if ok then
                  (case Segment_CurrentReadOffset s1 of
                     Inl p \<Rightarrow> Some (Inl p)
                   | Inr x \<Rightarrow> Some (Inr (w1, r\<lparr>off := x\<rparr>, True)))
                else
                  (case Reader_loadSegment w1 (off r + 1) of
                     Inl p \<Rightarrow> Some (Inl p)
                   | Inr (w2, sg, e) \<Rightarrow>
                       if e \<noteq> None then Some (Inr (w2, r\<lparr>err := e\<rparr>, False))
                       else if sg = None then Some (Inr (w2, r, False))
                       else Reader_NextDataChunk w2 (r\<lparr>seg_r := sg\<rparr>)))))"

definition Reader_Next :: "world \<Rightarrow> Reader \<Rightarrow> (panic + (world \<times> Reader \<times> bool)) option" where
  "Reader_Next w r =
     (if seg_r r = None then
        (case Reader_loadSegment w (off r) of
           Inl p \<Rightarrow> Some (Inl p)
         | Inr (w1, sg, e) \<Rightarrow>
             if e \<noteq> None then Some (Inr (w1, r\<lparr>err := e\<rparr>, False))
             else Reader_NextDataChunk w1 (r\<lparr>seg_r := sg\<rparr>))
      else Reader_NextDataChunk w r)"

definition Reader_Data :: "world \<Rightarrow> Reader \<Rightarrow> panic + byte list" where
  "Reader_Data w r =
     (case seg_r r of
        None \<Rightarrow> Inl NilDereference
      | Some a \<Rightarrow> (case Segment_Chunk (heap w ! a) of Inl p \<Rightarrow> Inl p | Inr c \<Rightarrow> Inr (chunk_Data c)))"

definition Reader_Offset :: "Reader \<Rightarrow> Offset" where
  "Reader_Offset r = off r"

definition Reader_Error :: "Reader \<Rightarrow> error option" where
  "Reader_Error r = (case err r of Some e \<Rightarrow> Some (Wrap e ''wal reader'') | None \<Rightarrow> None)"

text \<open>Replaying a log is the loop \<open>for r.Next() { ... r.Data() ... }\<close> followed by
  \<open>r.Error()\<close>: the payloads in the order read, and the error at the end.\<close>

partial_function (option) replay ::
    "world \<Rightarrow> Reader \<Rightarrow> byte list list \<Rightarrow> (panic + (byte list list \<times> error option)) option" where
  "replay w r acc =
     (case Reader_Next w r of
        None \<Rightarrow> None
      | Some (Inl p) \<Rightarrow> Some (Inl p)
      | Some (Inr (w1, r1, ok)) \<Rightarrow>
          if ok then
            (case Reader_Data w1 r1 of
               Inl p \<Rightarrow> Some (Inl p)
             | Inr d \<Rightarrow> replay w1 r1 (acc @ [d]))
          else Some (Inr (acc, Reader_Error r1)))"

section \<open>Offset comparison\<close>

lemma Unix_split:
  "tsec (Unix 0 x) * 1000000000 + tnsec (Unix 0 x) = x \<and>
   0 \<le> tnsec (Unix 0 x) \<and> tnsec (Unix 0 x) < 1000000000"
proof (cases "x < 0")
  case True
  then have q: "quot x 1000000000 = - ((- x) div 1000000000)"
    by (simp add: quot_def)
  have m: "(- x) = ((- x) div 1000000000) * 1000000000 + (- x) mod 1000000000"
    by simp
  have b: "0 \<le> (- x) mod 1000000000" "(- x) mod 1000000000 < 1000000000"
    by simp_all
  show ?thesis
    using True m b unfolding Unix_def q Let_def
    by (auto simp: algebra_simps)
next
  case False
  then have q: "quot x 1000000000 = x div 1000000000"
    by (cases "x = 0") (simp_all add: quot_def)
  have m: "x = (x div 1000000000) * 1000000000 + x mod 1000000000"
    by simp
  have b: "0 \<le> x mod 1000000000" "x mod 1000000000 < 1000000000"
    by simp_all
  show ?thesis
    using False m b unfolding Unix_def q Let_def
    by (auto simp: algebra_simps)
qed

lemma lex_order:
  fixes s1 n1 s2 n2 :: int
  assumes "0 \<le> n1" "n1 < 1000000000" "0 \<le> n2" "n2 < 1000000000"
  shows "(s1 < s2 \<or> (s1 = s2 \<and> n1 < n2)) \<longleftrightarrow> s1 * 1000000000 + n1 < s2 * 1000000000 + n2"
  using assms by auto

lemma Unix_floor:
  "tsec (Unix 0 x) = x div 1000000000" "tnsec (Unix 0 x) = x mod 1000000000"
proof -
  note a = Unix_split [of x]
  have e: "x = 1000000000 * tsec (Unix 0 x) + tnsec (Unix 0 x)"
    using a by simp
  show "tsec (Unix 0 x) = x div 1000000000"
    using int_div_pos_eq [OF e] a by simp
  show "tnsec (Unix 0 x) = x mod 1000000000"
    using int_mod_pos_eq [OF e] a by simp
qed

lemma Time_Before_Unix: "Time_Before (Unix 0 x) (Unix 0 y) \<longleftrightarrow> x < y"
proof -
  note a = Unix_split [of x] and b = Unix_split [of y]
  have "Time_Before (Unix 0 x) (Unix 0 y) \<longleftrightarrow>
        tsec (Unix 0 x) * 1000000000 + tnsec (Unix 0 x)
          < tsec (Unix 0 y) * 1000000000 + tnsec (Unix 0 y)"
    unfolding Time_Before_def using a b by (intro lex_order) simp_all
  then show ?thesis using a b by simp
qed

lemma Time_Equal_Unix: "Time_Equal (Unix 0 x) (Unix 0 y) \<longleftrightarrow> x = y"
  unfolding Time_Equal_def Unix_floor
  by (metis div_mult_mod_eq)

lemma Offset_Before_iff: "Offset_Before a b \<longleftrightarrow> sint a < sint b"
  by (simp add: Offset_Before_def Time_Before_Unix)

lemma Offset_After_iff: "Offset_After a b \<longleftrightarrow> sint a < sint b"
  by (simp add: Offset_After_def Time_Before_Unix)

lemma Offset_Equal_iff: "Offset_Equal a b \<longleftrightarrow> a = b"
  by (auto simp add: Offset_Equal_def Time_Equal_Unix intro: signed_word_eqI)

lemma Offset_Within_iff: "Offset_Within x a b \<longleftrightarrow> sint a \<le> sint x \<and> sint x \<le> sint b"
  by (simp add: Offset_Within_def Let_def)

text \<open>
  Claim C2. The comparison operations are meant to realise the numeric order of the
  signed 64-bit value: \<open>before(a,b)\<close> iff \<open>a < b\<close>, \<open>after(a,b)\<close> iff \<open>a > b\<close>, \<open>equal(a,b)\<close>
  iff \<open>a = b\<close>, \<open>within(o,a,b)\<close> iff \<open>a \<le> o \<le> b\<close>. \<open>Before\<close>, \<open>Equal\<close> and \<open>Within\<close> do
  (lemmas \<open>Offset_Before_iff\<close>, \<open>Offset_Equal_iff\<close>, \<open>Offset_Within_iff\<close>). \<open>After\<close> does
  not: its body is the body of \<open>Before\<close>, so the offset 1 is reported to be after the
  offset 2, and 2 is reported not to be after 1.
\<close>

theorem Offset_After_inverted:
  "Offset_After 1 2 = True \<and> Offset_After 2 1 = False
   \<and> Offset_Before 1 2 = True \<and> Offset_Before 2 1 = False"
  by (simp add: Offset_After_iff Offset_Before_iff)

section \<open>Chunk layout\<close>

lemma bit_byte_of_word:
  "bit (push_bit k (ucast (ucast (drop_bit k v) :: byte)) :: 64 word) n \<longleftrightarrow>
     (k \<le> n \<and> n < k + 8 \<and> n < 64 \<and> bit v n)"
  by (auto simp add: bit_simps)

lemma bit_byte_of_word0:
  "bit (ucast (ucast v :: byte) :: 64 word) n \<longleftrightarrow> (n < 8 \<and> bit v n)"
  by (auto simp add: bit_simps)

lemma Uint64_PutUint64: "Uint64 (PutUint64 v @ r) = v"
proof (rule bit_word_eqI)
  fix n assume "n < LENGTH(64)"
  then have n: "n < 64" by simp
  have "bit (Uint64 (PutUint64 v @ r)) n \<longleftrightarrow>
        (n < 8 \<and> bit v n) \<or> (8 \<le> n \<and> n < 16 \<and> bit v n) \<or> (16 \<le> n \<and> n < 24 \<and> bit v n)
        \<or> (24 \<le> n \<and> n < 32 \<and> bit v n) \<or> (32 \<le> n \<and> n < 40 \<and> bit v n)
        \<or> (40 \<le> n \<and> n < 48 \<and> bit v n) \<or> (48 \<le> n \<and> n < 56 \<and> bit v n)
        \<or> (56 \<le> n \<and> n < 64 \<and> bit v n)"
    unfolding Uint64_def PutUint64_def
    by (simp add: nth_append bit_or_iff bit_byte_of_word bit_byte_of_word0 n
          del: bit_ucast_iff bit_push_bit_iff)
  also have "\<dots> \<longleftrightarrow> bit v n"
    using n by arith
  finally show "bit (Uint64 (PutUint64 v @ r)) n \<longleftrightarrow> bit v n" .
qed

lemma length_PutUint64 [simp]: "length (PutUint64 v) = 8"
  by (simp add: PutUint64_def)

lemma chunk_Offset_newChunkOffset [simp]: "chunk_Offset (newChunkOffset p x) = x"
  using Uint64_PutUint64 [of x "[]"]
  by (simp add: chunk_Offset_def newChunkOffset_def chunkOffsetSize_def)

lemma chunk_Data_newChunkOffset [simp]: "chunk_Data (newChunkOffset p x) = p"
  by (simp add: chunk_Data_def newChunkOffset_def chunkOffsetSize_def)

lemma length_newChunkOffset [simp]: "length (newChunkOffset p x) = 8 + length p"
  by (simp add: newChunkOffset_def)

section \<open>Segment capacity\<close>

text \<open>A run of writes to one segment: each write is stamped with the offset the clock
  gives it; a write that fails leaves the segment as it was.\<close>

fun Segment_Writes :: "Segment \<Rightarrow> (Offset \<times> byte list) list \<Rightarrow> Segment" where
  "Segment_Writes s [] = s"
| "Segment_Writes s ((now, p) # ws) = Segment_Writes (fst (Segment_Write now s p)) ws"

definition raw_total :: "chunk list \<Rightarrow> nat" where
  "raw_total cs = sum_list (map length cs)"

definition cap_inv :: "Segment \<Rightarrow> bool" where
  "cap_inv s = (chunks s = [] \<or>
     (uint (seg_size s) < 2 ^ 63 \<and> int (raw_total (chunks s)) \<le> uint (seg_size s) + 8))"

lemma foldl_word_total:
  "foldl (\<lambda>n c. n + of_nat (length c)) (a :: 64 word) cs = a + of_nat (raw_total cs)"
  by (induction cs arbitrary: a) (simp_all add: raw_total_def algebra_simps)

lemma foldl_int_total:
  "foldl (\<lambda>n c. n + int (length c)) a cs = a + int (raw_total cs)"
  by (induction cs arbitrary: a) (simp_all add: raw_total_def algebra_simps)

lemma Segment_Size_total: "Segment_Size s = int (raw_total (chunks s))"
  by (simp add: Segment_Size_def foldl_int_total)

lemma sint64_pos:
  fixes w :: "64 word"
  assumes "0 < sint w"
  shows "uint w < 2 ^ 63" and "sint w = uint w"
proof -
  show small: "uint w < 2 ^ 63"
  proof (rule ccontr)
    assume "\<not> uint w < 2 ^ 63"
    then have a: "signed_take_bit 63 (uint w) \<le> uint w - 18446744073709551616"
      using signed_take_bit_int_less_eq [of 63 "uint w"] by simp
    have b: "uint w < 18446744073709551616"
      using uint_bounded [of w] by simp
    have e: "sint w = signed_take_bit 63 (uint w)"
      by (simp add: sint_uint)
    from a b have "signed_take_bit 63 (uint w) < 0"
      by linarith
    with assms e show False by linarith
  qed
  moreover have "- (2 ^ 63) \<le> uint w"
    by (rule order_trans [OF _ uint_ge_0]) simp
  ultimately have "signed_take_bit 63 (uint w) = uint w"
    by (intro signed_take_bit_int_eq_self)
  then show "sint w = uint w"
    by (simp add: sint_uint)
qed

lemma remaining_sint:
  assumes "- (2 ^ 63) \<le> uint (seg_size s) - int (raw_total (chunks s))"
    and "uint (seg_size s) - int (raw_total (chunks s)) < 2 ^ 63"
  shows "sint (remaining s) = uint (seg_size s) - int (raw_total (chunks s))"
proof -
  have "remaining s = word_of_int (uint (seg_size s) - int (raw_total (chunks s)))"
    by (simp add: remaining_def foldl_word_total)
  then show ?thesis
    using assms by (simp only: signed_of_int) (simp add: signed_take_bit_int_eq_self)
qed

lemma Segment_Write_size [simp]: "seg_size (fst (Segment_Write now s p)) = seg_size s"
  by (simp add: Segment_Write_def Segment_write_def)

lemma cap_inv_Write:
  assumes "cap_inv s"
  shows "cap_inv (fst (Segment_Write now s p))"
proof (cases "length p = 0 \<or> int (length p) > sint (remaining s)")
  case True
  then show ?thesis using assms by (auto simp add: Segment_Write_def)
next
  case False
  then have p: "0 < int (length p)" and fit: "int (length p) \<le> sint (remaining s)"
    by auto
  have new: "chunks (fst (Segment_Write now s p)) = chunks s @ [newChunkOffset p now]"
    using False by (simp add: Segment_Write_def Segment_write_def)
  have tot: "int (raw_total (chunks s @ [newChunkOffset p now])) =
      int (raw_total (chunks s)) + 8 + int (length p)"
    by (simp add: raw_total_def newChunkOffset_def)
  have sz: "seg_size (fst (Segment_Write now s p)) = seg_size s"
    by simp
  show ?thesis
  proof (cases "chunks s = []")
    case True
    then have r: "remaining s = seg_size s"
      by (simp add: remaining_def)
    from fit p have "0 < sint (remaining s)" by linarith
    then have pos: "0 < sint (seg_size s)" by (simp only: r)
    have small: "uint (seg_size s) < 2 ^ 63" and eq: "sint (seg_size s) = uint (seg_size s)"
      using sint64_pos [OF pos] by simp_all
    from fit have "int (length p) \<le> uint (seg_size s)"
      by (simp only: r eq)
    moreover have "int (raw_total (chunks s)) = 0"
      using True by (simp add: raw_total_def)
    ultimately have "int (raw_total (chunks s)) + 8 + int (length p) \<le> uint (seg_size s) + 8"
      by linarith
    with small show ?thesis
      unfolding cap_inv_def new sz tot by blast
  next
    case False
    with assms have small: "uint (seg_size s) < 2 ^ 63"
      and bound: "int (raw_total (chunks s)) \<le> uint (seg_size s) + 8"
      by (auto simp add: cap_inv_def)
    have "- (2 ^ 63) \<le> uint (seg_size s) - int (raw_total (chunks s))"
      using bound uint_ge_0 [of "seg_size s"] by simp
    moreover have "uint (seg_size s) - int (raw_total (chunks s)) < 2 ^ 63"
      using small by simp
    ultimately have "sint (remaining s) = uint (seg_size s) - int (raw_total (chunks s))"
      by (rule remaining_sint)
    with fit have "int (raw_total (chunks s)) + 8 + int (length p) \<le> uint (seg_size s) + 8"
      by linarith
    with small show ?thesis
      unfolding cap_inv_def new sz tot by blast
  qed
qed

lemma cap_inv_Writes: "cap_inv s \<Longrightarrow> cap_inv (Segment_Writes s ws)"
  by (induction ws arbitrary: s) (auto simp add: cap_inv_Write)

lemma Segment_Writes_size [simp]: "seg_size (Segment_Writes s ws) = seg_size s"
  by (induction ws arbitrary: s) auto

lemma Segment_Writes_bound:
  "Segment_Size (Segment_Writes (NewSegmentSize C) ws) \<le> uint C + 8"
proof -
  have "cap_inv (Segment_Writes (NewSegmentSize C) ws)"
    by (rule cap_inv_Writes) (simp add: cap_inv_def NewSegmentSize_def)
  moreover have "seg_size (Segment_Writes (NewSegmentSize C) ws) = C"
    by (simp add: NewSegmentSize_def)
  moreover have "0 \<le> uint C"
    by simp
  ultimately show ?thesis
    unfolding cap_inv_def Segment_Size_total by (auto simp add: raw_total_def)
qed

lemma Segment_Write_rejected:
  "p \<noteq> [] \<Longrightarrow> sint (remaining s) < int (length p) \<Longrightarrow>
   Segment_Write now s p = (s, 0, Some ErrNotEnoughSpace)"
  by (simp add: Segment_Write_def)

text \<open>A segment of capacity 20 after one write of a 15-byte payload stamped 1: the
  payload length 15 is compared with the remaining capacity 20 and admitted; the chunk
  stored is 8 + 15 = 23 bytes long.\<close>

definition seg20 :: Segment where
  "seg20 = Segment_Writes (NewSegmentSize 20) [(1, replicate 15 0)]"

lemma seg20_eq:
  "seg20 = \<lparr>seg_size = 20, chunks = [newChunkOffset (replicate 15 0) 1], chunkIdx = - 1\<rparr>"
  by (simp add: seg20_def NewSegmentSize_def Segment_Write_def Segment_write_def remaining_def)

lemma seg20_remaining: "sint (remaining seg20) = - 3"
  by (simp add: seg20_eq remaining_def)

text \<open>
  Claim C4, as stated: for every sequence of writes to a segment of capacity \<open>C\<close> the
  sum of the raw chunk lengths (offset width plus payload length) never exceeds \<open>C\<close>.
  It fails for capacity 20 and one 15-byte payload: the raw size is 23.
\<close>

theorem Segment_capacity_counterexample:
  "\<not> Segment_Size (Segment_Writes (NewSegmentSize 20) [(1, replicate 15 0)]) \<le> uint (20 :: 64 word)"
  unfolding seg20_def [symmetric] seg20_eq by (simp add: Segment_Size_def)

text \<open>
  Claim C4, amended: \<open>Write\<close> admits a payload by its own length, without the eight
  bytes of the offset, so after any sequence of writes to a fresh segment of capacity
  \<open>C\<close> the sum of the raw chunk lengths is at most \<open>C + 8\<close>; and a write of a non-empty
  payload longer than the remaining capacity fails with \<open>ErrNotEnoughSpace\<close> and
  returns the segment unchanged.
\<close>

theorem Segment_capacity_amended:
  "Segment_Size (Segment_Writes (NewSegmentSize C) ws) \<le> uint C + 8
   \<and> (p \<noteq> [] \<and> sint (remaining s) < int (length p)
        \<longrightarrow> Segment_Write now s p = (s, 0, Some ErrNotEnoughSpace))"
  using Segment_Writes_bound [of C ws] Segment_Write_rejected [of p s now] by blast

theorem Segment_capacity_amended_witness:
  "Segment_Size (Segment_Writes (NewSegmentSize 20) [(1, replicate 15 0)]) \<le> uint (20 :: 64 word) + 8
   \<and> Segment_Write 2 seg20 (replicate 15 1) = (seg20, 0, Some ErrNotEnoughSpace)"
proof -
  have a: "replicate 15 (1 :: byte) \<noteq> []"
    by simp
  have b: "sint (remaining seg20) < int (length (replicate 15 (1 :: byte)))"
    by (simp add: seg20_remaining)
  from Segment_capacity_amended [of 20 "[(1, replicate 15 0)]" "replicate 15 1" seg20 2] a b
  show ?thesis by blast
qed

section \<open>Segment truncation\<close>

text \<open>Three chunks stamped 1, 2 and 3 in one segment.\<close>

definition seg123 :: Segment where
  "seg123 = Segment_Writes (NewSegmentSize 100) [(1, [97]), (2, [98]), (3, [99])]"

lemma seg123_eq:
  "seg123 = \<lparr>seg_size = 100,
     chunks = [newChunkOffset [97] 1, newChunkOffset [98] 2, newChunkOffset [99] 3],
     chunkIdx = - 1\<rparr>"
  by (simp add: seg123_def NewSegmentSize_def Segment_Write_def Segment_write_def remaining_def)

lemma Segment_Truncate_seg123: "Segment_Truncate 2 seg123 = seg123"
  by (simp add: seg123_eq Segment_Truncate_def Offset_After_iff)

text \<open>
  Claim C1. \<open>truncate(O)\<close> is to remove exactly the chunks whose offset is \<open>\<le> O\<close>,
  keeping the chunks with offset \<open>> O\<close> in order. On the segment with chunks stamped
  1, 2, 3, \<open>Truncate(2)\<close> should leave the chunk stamped 3. The loop tests
  \<open>c.Offset().After(offset)\<close>, which holds for the first chunk (1 is reported after 2),
  so the slice kept is \<open>chunks[0:]\<close>: all three chunks stay.
\<close>

theorem Segment_Truncate_keeps_all:
  "map chunk_Offset (chunks (Segment_Truncate 2 seg123)) = [1, 2, 3]
   \<and> map chunk_Offset (filter (\<lambda>c. sint (chunk_Offset c) > 2) (chunks seg123)) = [3]"
  by (simp add: Segment_Truncate_seg123) (simp add: seg123_eq)

section \<open>Truncating a memory sink\<close>

definition seg1 :: Segment where
  "seg1 = Segment_Writes (NewSegmentSize 100) [(1, [97])]"

definition seg2 :: Segment where
  "seg2 = Segment_Writes (NewSegmentSize 100) [(2, [98])]"

lemma seg1_eq: "seg1 = \<lparr>seg_size = 100, chunks = [newChunkOffset [97] 1], chunkIdx = - 1\<rparr>"
  by (simp add: seg1_def NewSegmentSize_def Segment_Write_def Segment_write_def remaining_def)

lemma seg2_eq: "seg2 = \<lparr>seg_size = 100, chunks = [newChunkOffset [98] 2], chunkIdx = - 1\<rparr>"
  by (simp add: seg2_def NewSegmentSize_def Segment_Write_def Segment_write_def remaining_def)

lemma Segment_Limits_seg123: "Segment_Limits seg123 = (1, 3)"
  by (simp add: seg123_eq Segment_Limits_def)

lemma MemorySink_Truncate_seg123:
  "MemorySink_Truncate [seg123] \<lparr>segments = [0]\<rparr> 2 = Inr ([seg123], \<lparr>segments = [0]\<rparr>, None)"
  by (simp add: MemorySink_Truncate_def Segment_Limits_seg123 Segment_Truncate_seg123
        Offset_Before_iff Offset_Within_iff)

lemma MemorySink_Truncate_all_expired:
  "MemorySink_Truncate [seg1, seg2] \<lparr>segments = [0, 1]\<rparr> 5 = Inl IndexOutOfRange"
  by (simp add: MemorySink_Truncate_def seg1_eq seg2_eq Segment_Limits_def Offset_Before_iff)

text \<open>
  Claim C3. After \<open>truncate(O)\<close> on a sink, the segments removed entirely are those
  whose newest offset was \<open>< O\<close>, at most one surviving segment is partially rewritten,
  and that segment satisfies \<open>oldest' \<ge> O\<close> with its chunks of offset \<open>> O\<close> unchanged.
  On a memory sink holding the one segment with chunks stamped 1, 2, 3, \<open>Truncate(2)\<close>
  selects that segment (2 is within its limits 1 and 3) and calls \<open>Segment.Truncate\<close>,
  which leaves it whole: its oldest offset stays 1, below 2. On a memory sink whose two
  segments are both older than the offset, both are dropped and the index of the first
  remaining segment then panics.
\<close>

theorem MemorySink_Truncate_boundary_kept:
  "MemorySink_Truncate [seg123] \<lparr>segments = [0]\<rparr> 2 = Inr ([seg123], \<lparr>segments = [0]\<rparr>, None)
   \<and> fst (Segment_Limits seg123) = 1
   \<and> MemorySink_Truncate [seg1, seg2] \<lparr>segments = [0, 1]\<rparr> 5 = Inl IndexOutOfRange"
  using MemorySink_Truncate_seg123 Segment_Limits_seg123 MemorySink_Truncate_all_expired
  by (intro conjI) simp_all

section \<open>An empty memory sink\<close>

lemma Reader_Next_panic:
  "Reader_loadSegment w (off r) = Inl p \<Longrightarrow> seg_r r = None \<Longrightarrow> Reader_Next w r = Some (Inl p)"
  by (simp add: Reader_Next_def)

text \<open>
  Claim C10. On a memory sink holding no segment, \<open>LoadSegment(ZeroOffset)\<close> and
  \<open>Offsets()\<close> index the empty segment list and panic, and the first \<open>Next()\<close> of a
  reader over such a sink panics with them: it neither returns false nor reports an
  error.
\<close>

theorem MemorySink_empty_panics:
  "MemorySink_LoadSegment h NewMemorySink ZeroOffset = Inl IndexOutOfRange
   \<and> MemorySink_Offsets h NewMemorySink = Inl IndexOutOfRange
   \<and> Reader_Next \<lparr>heap = h, sink = Mem NewMemorySink\<rparr> NewReader = Some (Inl IndexOutOfRange)"
proof -
  have a: "MemorySink_LoadSegment h NewMemorySink ZeroOffset = Inl IndexOutOfRange"
    by (simp add: MemorySink_LoadSegment_def NewMemorySink_def Offset_Equal_iff)
  have b: "MemorySink_Offsets h NewMemorySink = Inl IndexOutOfRange"
    by (simp add: MemorySink_Offsets_def NewMemorySink_def)
  have "Reader_loadSegment \<lparr>heap = h, sink = Mem NewMemorySink\<rparr> (off NewReader) = Inl IndexOutOfRange"
    by (simp add: Reader_loadSegment_def Sink_LoadSegment_def a NewReader_def NewReaderOffset_def)
  then have c: "Reader_Next \<lparr>heap = h, sink = Mem NewMemorySink\<rparr> NewReader = Some (Inl IndexOutOfRange)"
    by (rule Reader_Next_panic) (simp add: NewReader_def NewReaderOffset_def)
  from a b c show ?thesis by simp
qed

section \<open>A closed logger\<close>

lemma Logger_flush_segSize: "Logger_flush w l = (w1, l1, e) \<Longrightarrow> segSize l1 = segSize l"
  by (auto simp add: Logger_flush_def split: prod.splits option.splits)

lemma Logger_Close_closed:
  assumes "Logger_Close w l = (w1, l1, None)"
  shows "closed l1" and "segSize l1 = segSize l"
  using assms
  by (auto simp add: Logger_Close_def Sink_Close_def split: if_splits prod.splits option.splits
        dest: Logger_flush_segSize)

text \<open>
  Claim C9. After a successful \<open>Close()\<close> on an open logger, a write of a payload no
  larger than the segment capacity fails with \<open>ErrLoggerClosed\<close> (wrapped by \<open>Write\<close>), a
  flush fails with \<open>ErrLoggerClosed\<close>, and a second \<open>Close()\<close> returns success and changes
  nothing.
\<close>

theorem Logger_after_Close:
  assumes "\<not> closed l"
    and "Logger_Close w l = (w1, l1, None)"
    and "int (length p) \<le> uint (segSize l)"
  shows "Logger_Write now w1 l1 p = Some (w1, l1, 0, Some (Wrap ErrLoggerClosed ''write''))
    \<and> Cause (Wrap ErrLoggerClosed ''write'') = ErrLoggerClosed
    \<and> Logger_Flush w1 l1 = (w1, l1, Some ErrLoggerClosed)
    \<and> Logger_Close w1 l1 = (w1, l1, None)"
  using Logger_Close_closed [OF assms(2)] assms(3)
  by (simp add: Logger_Write_def Logger_Flush_def Logger_Close_def)

definition world0 :: world where
  "world0 = \<lparr>heap = [NewSegmentSize 20], sink = Mem NewMemorySink\<rparr>"

definition logger0 :: Logger where
  "logger0 = \<lparr>segSize = 20, seg = 0, closed = False\<rparr>"

lemma New_world0: "New [] (Some (Mem NewMemorySink)) 20 = Inr (world0, logger0)"
  by (simp add: New_def world0_def logger0_def)

lemma Logger_Close_world0:
  "Logger_Close world0 logger0 =
     (\<lparr>heap = [NewSegmentSize 20, NewSegmentSize 20], sink = Mem NewMemorySink\<rparr>,
      \<lparr>segSize = 20, seg = 1, closed = True\<rparr>, None)"
  by (simp add: Logger_Close_def Logger_flush_def Sink_WriteSegment_def MemorySink_WriteSegment_def
        Sink_Close_def world0_def logger0_def NewSegmentSize_def NewMemorySink_def
        Segment_Limits_def Offset_Equal_iff ZeroOffset_def)

theorem Logger_after_Close_witness:
  "Logger_Write 5 \<lparr>heap = [NewSegmentSize 20, NewSegmentSize 20], sink = Mem NewMemorySink\<rparr>
      \<lparr>segSize = 20, seg = 1, closed = True\<rparr> [1, 2, 3]
     = Some (\<lparr>heap = [NewSegmentSize 20, NewSegmentSize 20], sink = Mem NewMemorySink\<rparr>,
             \<lparr>segSize = 20, seg = 1, closed = True\<rparr>, 0, Some (Wrap ErrLoggerClosed ''write''))
   \<and> Logger_Flush \<lparr>heap = [NewSegmentSize 20, NewSegmentSize 20], sink = Mem NewMemorySink\<rparr>
      \<lparr>segSize = 20, seg = 1, closed = True\<rparr>
     = (\<lparr>heap = [NewSegmentSize 20, NewSegmentSize 20], sink = Mem NewMemorySink\<rparr>,
        \<lparr>segSize = 20, seg = 1, closed = True\<rparr>, Some ErrLoggerClosed)
   \<and> Logger_Close \<lparr>heap = [NewSegmentSize 20, NewSegmentSize 20], sink = Mem NewMemorySink\<rparr>
      \<lparr>segSize = 20, seg = 1, closed = True\<rparr>
     = (\<lparr>heap = [NewSegmentSize 20, NewSegmentSize 20], sink = Mem NewMemorySink\<rparr>,
        \<lparr>segSize = 20, seg = 1, closed = True\<rparr>, None)"
proof -
  have a: "\<not> closed logger0"
    by (simp add: logger0_def)
  have c: "int (length [1, 2, 3 :: byte]) \<le> uint (segSize logger0)"
    by (simp add: logger0_def)
  from Logger_after_Close [OF a Logger_Close_world0 c, of 5] show ?thesis
    by simp
qed

section \<open>The overflow scenario of the logger\<close>

text \<open>A logger with segment capacity 20 over an empty memory sink, and two writes, the
  first stamped \<open>t1\<close>, the second \<open>t2\<close>: the segment counts of the sink after each write,
  and the world and logger after the second.\<close>

definition twoWrites :: "Offset \<Rightarrow> byte list \<Rightarrow> Offset \<Rightarrow> byte list \<Rightarrow> (int \<times> int \<times> world \<times> Logger) option" where
  "twoWrites t1 p1 t2 p2 =
     (case New [] (Some (Mem NewMemorySink)) 20 of
        Inl e \<Rightarrow> None
      | Inr (w0, l0) \<Rightarrow>
          (case Logger_Write t1 w0 l0 p1 of
             Some (w1, l1, n1, None) \<Rightarrow>
               (case Logger_Write t2 w1 l1 p2 of
                  Some (w2, l2, n2, None) \<Rightarrow> Some (Sink_NumSegments w1, Sink_NumSegments w2, w2, l2)
                | _ \<Rightarrow> None)
           | _ \<Rightarrow> None))"

definition chunkSeg :: "Offset \<Rightarrow> byte list \<Rightarrow> Segment" where
  "chunkSeg t p = \<lparr>seg_size = 20, chunks = [newChunkOffset p t], chunkIdx = - 1\<rparr>"

lemma remaining_chunkSeg: "length p = 15 \<Longrightarrow> sint (remaining (chunkSeg t p)) = - 3"
  by (simp add: chunkSeg_def remaining_def)

lemma remaining_New20: "sint (remaining (NewSegmentSize 20)) = 20"
  by (simp add: NewSegmentSize_def remaining_def)

lemma Segment_Write_New20:
  "length p = 15 \<Longrightarrow> Segment_Write t (NewSegmentSize 20) p = (chunkSeg t p, 15, None)"
  by (simp add: Segment_Write_def remaining_New20 Segment_write_def) (simp add: NewSegmentSize_def chunkSeg_def)

lemma Segment_Write_chunkSeg:
  "length p1 = 15 \<Longrightarrow> length p2 = 15 \<Longrightarrow>
   Segment_Write t2 (chunkSeg t1 p1) p2 = (chunkSeg t1 p1, 0, Some ErrNotEnoughSpace)"
  by (simp add: Segment_Write_def remaining_chunkSeg)

lemma Segment_Limits_chunkSeg: "Segment_Limits (chunkSeg t p) = (t, t)"
  by (simp add: chunkSeg_def Segment_Limits_def)

lemma Logger_Write_first:
  assumes "length p1 = 15"
  shows "Logger_Write t1 world0 logger0 p1 =
    Some (\<lparr>heap = [chunkSeg t1 p1], sink = Mem NewMemorySink\<rparr>, logger0, 15, None)"
proof -
  have "Logger_WriteData t1 p1 world0 logger0 =
      Some (\<lparr>heap = [chunkSeg t1 p1], sink = Mem NewMemorySink\<rparr>, logger0, None)"
    by (subst Logger_WriteData.simps)
       (simp add: world0_def logger0_def Segment_Write_New20 assms)
  then show ?thesis
    by (simp add: Logger_Write_def assms) (simp add: logger0_def)
qed

lemma Logger_Write_second:
  assumes "length p1 = 15" "length p2 = 15" "t1 \<noteq> 0"
  shows "Logger_Write t2 \<lparr>heap = [chunkSeg t1 p1], sink = Mem NewMemorySink\<rparr> logger0 p2 =
    Some (\<lparr>heap = [chunkSeg t1 p1, chunkSeg t2 p2], sink = Mem \<lparr>segments = [0]\<rparr>\<rparr>,
          logger0\<lparr>seg := 1\<rparr>, 15, None)"
proof -
  have fl: "Logger_flush \<lparr>heap = [chunkSeg t1 p1], sink = Mem NewMemorySink\<rparr> logger0 =
      (\<lparr>heap = [chunkSeg t1 p1, NewSegmentSize 20], sink = Mem \<lparr>segments = [0]\<rparr>\<rparr>,
       logger0\<lparr>seg := 1\<rparr>, None)"
    using assms(3)
    by (simp add: Logger_flush_def Sink_WriteSegment_def MemorySink_WriteSegment_def logger0_def
          Segment_Limits_chunkSeg Offset_Equal_iff ZeroOffset_def NewMemorySink_def)
  have two: "Logger_WriteData t2 p2
        \<lparr>heap = [chunkSeg t1 p1, NewSegmentSize 20], sink = Mem \<lparr>segments = [0]\<rparr>\<rparr>
        (logger0\<lparr>seg := 1\<rparr>) =
      Some (\<lparr>heap = [chunkSeg t1 p1, chunkSeg t2 p2], sink = Mem \<lparr>segments = [0]\<rparr>\<rparr>,
            logger0\<lparr>seg := 1\<rparr>, None)"
    by (subst Logger_WriteData.simps)
       (simp add: logger0_def Segment_Write_New20 assms)
  have "Logger_WriteData t2 p2 \<lparr>heap = [chunkSeg t1 p1], sink = Mem NewMemorySink\<rparr> logger0 =
      Some (\<lparr>heap = [chunkSeg t1 p1, chunkSeg t2 p2], sink = Mem \<lparr>segments = [0]\<rparr>\<rparr>,
            logger0\<lparr>seg := 1\<rparr>, None)"
    apply (subst Logger_WriteData.simps)
    apply (simp add: Segment_Write_chunkSeg assms logger0_def)
    apply (simp add: fl [unfolded logger0_def, simplified] two [unfolded logger0_def, simplified])
    done
  then show ?thesis
    by (simp add: Logger_Write_def assms) (simp add: logger0_def)
qed


lemma NDC_more:
  assumes "seg_r r = Some a" "Segment_Next (heap w ! a) = (s1, True)"
    and "Segment_CurrentReadOffset s1 = Inr x"
  shows "Reader_NextDataChunk w r = Some (Inr (w\<lparr>heap := (heap w)[a := s1]\<rparr>, r\<lparr>off := x\<rparr>, True))"
  by (subst Reader_NextDataChunk.simps) (simp add: assms)

lemma NDC_panic:
  assumes "seg_r r = Some a" "Segment_Next (heap w ! a) = (s1, True)"
    and "Segment_CurrentReadOffset s1 = Inl p"
  shows "Reader_NextDataChunk w r = Some (Inl p)"
  by (subst Reader_NextDataChunk.simps) (simp add: assms)

lemma NDC_end:
  assumes "seg_r r = Some a" "Segment_Next (heap w ! a) = (s1, False)"
    and "Reader_loadSegment (w\<lparr>heap := (heap w)[a := s1]\<rparr>) (off r + 1) = Inr (w2, None, None)"
  shows "Reader_NextDataChunk w r = Some (Inr (w2, r, False))"
  by (subst Reader_NextDataChunk.simps) (simp add: assms)

lemma NDC_load:
  assumes "seg_r r = Some a" "Segment_Next (heap w ! a) = (s1, False)"
    and "Reader_loadSegment (w\<lparr>heap := (heap w)[a := s1]\<rparr>) (off r + 1) = Inr (w2, Some b, None)"
  shows "Reader_NextDataChunk w r = Reader_NextDataChunk w2 (r\<lparr>seg_r := Some b\<rparr>)"
  by (subst Reader_NextDataChunk.simps) (simp add: assms)

lemma NDC_error:
  assumes "seg_r r = Some a" "Segment_Next (heap w ! a) = (s1, False)"
    and "Reader_loadSegment (w\<lparr>heap := (heap w)[a := s1]\<rparr>) (off r + 1) = Inr (w2, sg, Some e)"
  shows "Reader_NextDataChunk w r = Some (Inr (w2, r\<lparr>err := Some e\<rparr>, False))"
  by (subst Reader_NextDataChunk.simps) (simp add: assms)

lemma Reader_Next_first:
  assumes "seg_r r = None" "Reader_loadSegment w (off r) = Inr (w1, sg, None)"
  shows "Reader_Next w r = Reader_NextDataChunk w1 (r\<lparr>seg_r := sg\<rparr>)"
  by (simp add: Reader_Next_def assms)

lemma Reader_Next_first_error:
  assumes "seg_r r = None" "Reader_loadSegment w (off r) = Inr (w1, sg, Some e)"
  shows "Reader_Next w r = Some (Inr (w1, r\<lparr>err := Some e\<rparr>, False))"
  by (simp add: Reader_Next_def assms)

lemma Reader_Next_loaded:
  assumes "seg_r r = Some a"
  shows "Reader_Next w r = Reader_NextDataChunk w r"
  by (simp add: Reader_Next_def assms)

lemma replay_more:
  assumes "Reader_Next w r = Some (Inr (w1, r1, True))" "Reader_Data w1 r1 = Inr d"
  shows "replay w r acc = replay w1 r1 (acc @ [d])"
  by (subst replay.simps) (simp add: assms)

lemma replay_done:
  assumes "Reader_Next w r = Some (Inr (w1, r1, False))"
  shows "replay w r acc = Some (Inr (acc, Reader_Error r1))"
  by (subst replay.simps) (simp add: assms)

lemma replay_panic:
  assumes "Reader_Next w r = Some (Inl p)"
  shows "replay w r acc = Some (Inl p)"
  by (subst replay.simps) (simp add: assms)

lemma sint_succ:
  fixes t :: "64 word"
  assumes "sint t < 2 ^ 63 - 1"
  shows "sint (t + 1) = sint t + 1"
proof -
  have lo: "- (2 ^ 63) \<le> sint t"
    using sint_ge [of t] by simp
  have "sint (t + 1) = signed_take_bit 63 (sint t + 1)"
    by (simp add: sint_word_add)
  also have "\<dots> = sint t + 1"
    using lo assms by (intro signed_take_bit_int_eq_self) simp_all
  finally show ?thesis .
qed


definition readSeg :: "Offset \<Rightarrow> byte list \<Rightarrow> Segment" where
  "readSeg t p = \<lparr>seg_size = 20, chunks = [newChunkOffset p t], chunkIdx = 0\<rparr>"

lemma Segment_Next_chunkSeg: "Segment_Next (chunkSeg t p) = (readSeg t p, True)"
  by (simp add: Segment_Next_def chunkSeg_def readSeg_def)

lemma Segment_Next_readSeg: "Segment_Next (readSeg t p) = (readSeg t p, False)"
  by (simp add: Segment_Next_def readSeg_def)

lemma CurrentReadOffset_readSeg: "Segment_CurrentReadOffset (readSeg t p) = Inr t"
  by (simp add: Segment_CurrentReadOffset_def readSeg_def)

lemma Segment_Chunk_readSeg: "Segment_Chunk (readSeg t p) = Inr (newChunkOffset p t)"
  by (simp add: Segment_Chunk_def readSeg_def)

lemma Segment_Limits_readSeg: "Segment_Limits (readSeg t p) = (t, t)"
  by (simp add: readSeg_def Segment_Limits_def)

lemma Logger_Flush_second:
  assumes "t2 \<noteq> 0"
  shows "Logger_Flush \<lparr>heap = [chunkSeg t1 p1, chunkSeg t2 p2], sink = Mem \<lparr>segments = [0]\<rparr>\<rparr>
      (logger0\<lparr>seg := 1\<rparr>) =
    (\<lparr>heap = [chunkSeg t1 p1, chunkSeg t2 p2, NewSegmentSize 20], sink = Mem \<lparr>segments = [0, 1]\<rparr>\<rparr>,
     logger0\<lparr>seg := 2\<rparr>, None)"
  using assms
  by (simp add: Logger_Flush_def Logger_flush_def Sink_WriteSegment_def MemorySink_WriteSegment_def
        logger0_def Segment_Limits_chunkSeg Offset_Equal_iff ZeroOffset_def)

lemma replay_flushed:
  assumes clk: "0 < sint t1" "sint t1 < sint t2" "sint t2 < 2 ^ 63 - 1"
  shows "replay \<lparr>heap = [chunkSeg t1 p1, chunkSeg t2 p2, NewSegmentSize 20],
                 sink = Mem \<lparr>segments = [0, 1]\<rparr>\<rparr> NewReader [] = Some (Inr ([p1, p2], None))"
proof -
  let ?sk = "Mem \<lparr>segments = [0, 1]\<rparr>"
  let ?w0 = "\<lparr>heap = [chunkSeg t1 p1, chunkSeg t2 p2, NewSegmentSize 20], sink = ?sk\<rparr>"
  let ?w1 = "\<lparr>heap = [readSeg t1 p1, chunkSeg t2 p2, NewSegmentSize 20], sink = ?sk\<rparr>"
  let ?w2 = "\<lparr>heap = [readSeg t1 p1, readSeg t2 p2, NewSegmentSize 20], sink = ?sk\<rparr>"
  let ?r1 = "\<lparr>off = t1, seg_r = Some 0, err = None\<rparr>"
  let ?r2 = "\<lparr>off = t2, seg_r = Some 1, err = None\<rparr>"
  from clk have s1: "sint (t1 + 1) = sint t1 + 1"
    by (intro sint_succ) simp
  from clk have s2: "sint (t2 + 1) = sint t2 + 1"
    by (intro sint_succ) simp
  from clk s1 have nz1: "t1 + 1 \<noteq> 0"
    by auto
  from clk s2 have nz2: "t2 + 1 \<noteq> 0"
    by auto
  have l0: "Reader_loadSegment ?w0 (off NewReader) = Inr (?w0, Some 0, None)"
    by (simp add: Reader_loadSegment_def Sink_LoadSegment_def MemorySink_LoadSegment_def
          NewReader_def NewReaderOffset_def Offset_Equal_iff)
  have n1: "Reader_Next ?w0 NewReader = Some (Inr (?w1, ?r1, True))"
    apply (subst Reader_Next_first [OF _ l0])
     apply (simp add: NewReader_def NewReaderOffset_def)
    apply (subst NDC_more [where a = 0 and ?s1.0 = "readSeg t1 p1" and x = t1])
       apply (simp_all add: Segment_Next_chunkSeg CurrentReadOffset_readSeg
          NewReader_def NewReaderOffset_def ZeroOffset_def)
    done
  have d1: "Reader_Data ?w1 ?r1 = Inr p1"
    by (simp add: Reader_Data_def Segment_Chunk_readSeg)
  have l1: "Reader_loadSegment ?w1 (t1 + 1) = Inr (?w1, Some 1, None)"
    using clk s1 nz1
    by (auto simp add: Reader_loadSegment_def Sink_LoadSegment_def MemorySink_LoadSegment_def
          Offset_Equal_iff ZeroOffset_def Segment_Limits_readSeg Segment_Limits_chunkSeg
          Offset_Within_iff Offset_Before_iff)
  have n2: "Reader_Next ?w1 ?r1 = Some (Inr (?w2, ?r2, True))"
  proof -
    have a: "Reader_Next ?w1 ?r1 = Reader_NextDataChunk ?w1 ?r1"
      by (rule Reader_Next_loaded [where a = 0]) simp
    have b: "Reader_NextDataChunk ?w1 ?r1 = Reader_NextDataChunk ?w1 (?r1\<lparr>seg_r := Some 1\<rparr>)"
      by (rule NDC_load [where a = 0 and ?s1.0 = "readSeg t1 p1"])
         (use l1 in \<open>simp_all add: Segment_Next_readSeg\<close>)
    have c: "Reader_NextDataChunk ?w1 (?r1\<lparr>seg_r := Some 1\<rparr>) =
        Some (Inr (?w1\<lparr>heap := (heap ?w1)[1 := readSeg t2 p2]\<rparr>, ?r1\<lparr>seg_r := Some 1, off := t2\<rparr>, True))"
      by (rule NDC_more [where a = 1 and ?s1.0 = "readSeg t2 p2"])
         (simp_all add: Segment_Next_chunkSeg CurrentReadOffset_readSeg)
    show ?thesis
      unfolding a b c by simp
  qed
  have d2: "Reader_Data ?w2 ?r2 = Inr p2"
    by (simp add: Reader_Data_def Segment_Chunk_readSeg)
  have l2: "Reader_loadSegment ?w2 (t2 + 1) = Inr (?w2, None, None)"
    using clk s1 s2 nz2
    by (simp add: Reader_loadSegment_def Sink_LoadSegment_def MemorySink_LoadSegment_def
          Offset_Equal_iff ZeroOffset_def Segment_Limits_readSeg
          Offset_Within_iff Offset_Before_iff)
  have n3: "Reader_Next ?w2 ?r2 = Some (Inr (?w2, ?r2, False))"
  proof -
    have a: "Reader_Next ?w2 ?r2 = Reader_NextDataChunk ?w2 ?r2"
      by (rule Reader_Next_loaded [where a = 1]) simp
    have b: "Reader_NextDataChunk ?w2 ?r2 = Some (Inr (?w2, ?r2, False))"
      by (rule NDC_end [where a = 1 and ?s1.0 = "readSeg t2 p2"])
         (use l2 in \<open>simp_all add: Segment_Next_readSeg\<close>)
    show ?thesis
      unfolding a b by simp
  qed
  show ?thesis
    apply (subst replay_more [OF n1 d1])
    apply (subst replay_more [OF n2 d2])
    apply (subst replay_done [OF n3])
    apply (simp add: Reader_Error_def)
    done
qed

lemma replay_unflushed:
  assumes clk: "0 < sint t1" "sint t1 < 2 ^ 63 - 1"
  shows "replay \<lparr>heap = [chunkSeg t1 p1, chunkSeg t2 p2], sink = Mem \<lparr>segments = [0]\<rparr>\<rparr>
           NewReader [] = Some (Inr ([p1], None))"
proof -
  let ?sk = "Mem \<lparr>segments = [0]\<rparr>"
  let ?w0 = "\<lparr>heap = [chunkSeg t1 p1, chunkSeg t2 p2], sink = ?sk\<rparr>"
  let ?w1 = "\<lparr>heap = [readSeg t1 p1, chunkSeg t2 p2], sink = ?sk\<rparr>"
  let ?r1 = "\<lparr>off = t1, seg_r = Some 0, err = None\<rparr>"
  from clk have s1: "sint (t1 + 1) = sint t1 + 1"
    by (intro sint_succ) simp
  from clk s1 have nz1: "t1 + 1 \<noteq> 0"
    by auto
  have l0: "Reader_loadSegment ?w0 (off NewReader) = Inr (?w0, Some 0, None)"
    by (simp add: Reader_loadSegment_def Sink_LoadSegment_def MemorySink_LoadSegment_def
          NewReader_def NewReaderOffset_def Offset_Equal_iff)
  have n1: "Reader_Next ?w0 NewReader = Some (Inr (?w1, ?r1, True))"
    apply (subst Reader_Next_first [OF _ l0])
     apply (simp add: NewReader_def NewReaderOffset_def)
    apply (subst NDC_more [where a = 0 and ?s1.0 = "readSeg t1 p1" and x = t1])
       apply (simp_all add: Segment_Next_chunkSeg CurrentReadOffset_readSeg
          NewReader_def NewReaderOffset_def ZeroOffset_def)
    done
  have d1: "Reader_Data ?w1 ?r1 = Inr p1"
    by (simp add: Reader_Data_def Segment_Chunk_readSeg)
  have l1: "Reader_loadSegment ?w1 (t1 + 1) = Inr (?w1, None, None)"
    using clk s1 nz1
    by (simp add: Reader_loadSegment_def Sink_LoadSegment_def MemorySink_LoadSegment_def
          Offset_Equal_iff ZeroOffset_def Segment_Limits_readSeg
          Offset_Within_iff Offset_Before_iff)
  have n2: "Reader_Next ?w1 ?r1 = Some (Inr (?w1, ?r1, False))"
    apply (subst Reader_Next_loaded [where a = 0])
     apply simp
    apply (subst NDC_end [where a = 0 and ?s1.0 = "readSeg t1 p1" and ?w2.0 = ?w1])
       apply (simp_all add: Segment_Next_readSeg l1)
    done
  show ?thesis
    apply (subst replay_more [OF n1 d1])
    apply (subst replay_done [OF n2])
    apply (simp add: Reader_Error_def)
    done
qed


lemma twoWrites_eq:
  assumes "length p1 = 15" "length p2 = 15" "t1 \<noteq> 0"
  shows "twoWrites t1 p1 t2 p2 =
    Some (0, 1, \<lparr>heap = [chunkSeg t1 p1, chunkSeg t2 p2], sink = Mem \<lparr>segments = [0]\<rparr>\<rparr>,
          logger0\<lparr>seg := 1\<rparr>)"
proof -
  have n1: "Sink_NumSegments \<lparr>heap = [chunkSeg t1 p1], sink = Mem NewMemorySink\<rparr> = 0"
    by (simp add: Sink_NumSegments_def MemorySink_NumSegments_def NewMemorySink_def)
  have n2: "Sink_NumSegments \<lparr>heap = [chunkSeg t1 p1, chunkSeg t2 p2],
              sink = Mem \<lparr>segments = [0]\<rparr>\<rparr> = 1"
    by (simp add: Sink_NumSegments_def MemorySink_NumSegments_def)
  show ?thesis
    unfolding twoWrites_def New_world0
    by (simp only: sum.case prod.case option.case Logger_Write_first [OF assms(1)]
          Logger_Write_second [OF assms] n1 n2)
qed

text \<open>
  Claim C6, as stated: after the two 15-byte writes the sink holds one segment and a
  reader over the sink recovers both payloads. With the writes stamped 1 and 2, the
  reader recovers the first payload only: the second is in the logger's active segment,
  which no sink holds yet.
\<close>

theorem Logger_overflow_counterexample:
  "(case twoWrites 1 (replicate 15 1) 2 (replicate 15 2) of
      None \<Rightarrow> None
    | Some (n1, n2, w2, l2) \<Rightarrow> replay w2 NewReader [])
   = Some (Inr ([replicate 15 1], None))"
proof -
  have "twoWrites 1 (replicate 15 1) 2 (replicate 15 2) =
      Some (0, 1, \<lparr>heap = [chunkSeg 1 (replicate 15 1), chunkSeg 2 (replicate 15 2)],
                    sink = Mem \<lparr>segments = [0]\<rparr>\<rparr>, logger0\<lparr>seg := 1\<rparr>)"
    by (rule twoWrites_eq) simp_all
  moreover have "replay \<lparr>heap = [chunkSeg 1 (replicate 15 1), chunkSeg 2 (replicate 15 2)],
                sink = Mem \<lparr>segments = [0]\<rparr>\<rparr> NewReader [] = Some (Inr ([replicate 15 1], None))"
    by (rule replay_unflushed) simp_all
  ultimately show ?thesis
    by (simp only: option.case prod.case)
qed

text \<open>
  Claim C6, amended: for a logger with segment capacity 20 over an empty memory sink
  and two 15-byte payloads stamped with increasing positive offsets (below the largest
  \<open>int64\<close>), the first write leaves the sink with no segment, the second write flushes
  once and leaves it with one segment; after a following \<open>Flush()\<close> the sink holds two
  segments and a reader over it recovers both payloads, in write order, with no error.
\<close>

theorem Logger_overflow_amended:
  assumes "length p1 = 15" and "length p2 = 15"
    and "0 < sint t1" and "sint t1 < sint t2" and "sint t2 < 2 ^ 63 - 1"
  shows "\<exists>w2 l2 w3 l3.
      twoWrites t1 p1 t2 p2 = Some (0, 1, w2, l2)
      \<and> Logger_Flush w2 l2 = (w3, l3, None)
      \<and> Sink_NumSegments w3 = 2
      \<and> replay w3 NewReader [] = Some (Inr ([p1, p2], None))"
proof -
  from assms(3) have nz1: "t1 \<noteq> 0" by auto
  from assms(3,4) have nz2: "t2 \<noteq> 0" by auto
  let ?w2 = "\<lparr>heap = [chunkSeg t1 p1, chunkSeg t2 p2], sink = Mem \<lparr>segments = [0]\<rparr>\<rparr>"
  let ?w3 = "\<lparr>heap = [chunkSeg t1 p1, chunkSeg t2 p2, NewSegmentSize 20],
             sink = Mem \<lparr>segments = [0, 1]\<rparr>\<rparr>"
  have a: "twoWrites t1 p1 t2 p2 = Some (0, 1, ?w2, logger0\<lparr>seg := 1\<rparr>)"
    using assms(1,2) nz1 by (rule twoWrites_eq)
  have b: "Logger_Flush ?w2 (logger0\<lparr>seg := 1\<rparr>) = (?w3, logger0\<lparr>seg := 2\<rparr>, None)"
    using nz2 by (rule Logger_Flush_second)
  have c: "Sink_NumSegments ?w3 = 2"
    by (simp add: Sink_NumSegments_def MemorySink_NumSegments_def)
  have d: "replay ?w3 NewReader [] = Some (Inr ([p1, p2], None))"
    using assms(3,4,5) by (rule replay_flushed)
  from a b c d show ?thesis by blast
qed

theorem Logger_overflow_amended_witness:
  "\<exists>w2 l2 w3 l3.
      twoWrites 1 (replicate 15 1) 2 (replicate 15 2) = Some (0, 1, w2, l2)
      \<and> Logger_Flush w2 l2 = (w3, l3, None)
      \<and> Sink_NumSegments w3 = 2
      \<and> replay w3 NewReader [] = Some (Inr ([replicate 15 1, replicate 15 2], None))"
  by (rule Logger_overflow_amended) simp_all

end
